theory Spec2Isabelle
  imports Main "HOL-Library.Word" "HOL-Library.Sublist"
begin

section \<open>JavaScript strings\<close>

text \<open>
  A JavaScript string is a sequence of 16-bit code units.  The version strings and the
  template identifiers of \<^verbatim>\<open>scripts/test-build-registry.ts\<close> are such strings; \<open>js\<close>
  writes an ASCII literal as one.
\<close>

type_synonym code_unit = "16 word"
type_synonym jsstring = "code_unit list"

definition js :: "string \<Rightarrow> jsstring" where
  "js s = map (\<lambda>c. word_of_nat (of_char c :: nat)) s"

section \<open>The pattern of \<open>bumpSemver\<close>\<close>

text \<open>
  \<^verbatim>\<open>/^(\d+)\.(\d+)\.(\d+)(?:[.-].*)?$/\<close> has no flags: \<^verbatim>\<open>\d\<close> is an ASCII digit, \<^verbatim>\<open>.\<close>
  is any code unit but the four line terminators (LF, CR, U+2028, U+2029), and \<^verbatim>\<open>$\<close> is
  the end of the input only.
\<close>

definition is_digit :: "code_unit \<Rightarrow> bool" where
  "is_digit c = (0x30 \<le> c \<and> c \<le> 0x39)"

definition is_line_terminator :: "code_unit \<Rightarrow> bool" where
  "is_line_terminator c = (c = 0x0A \<or> c = 0x0D \<or> c = 0x2028 \<or> c = 0x2029)"

definition dot :: code_unit where
  "dot = 0x2E"

definition hyphen :: code_unit where
  "hyphen = 0x2D"

text \<open>The optional group and the anchor, \<^verbatim>\<open>(?:[.-].*)?$\<close>, on what follows the third number.\<close>

fun suffix_ok :: "jsstring \<Rightarrow> bool" where
  "suffix_ok [] = True"
| "suffix_ok (s # rest) =
     ((s = dot \<or> s = hyphen) \<and> list_all (\<lambda>c. \<not> is_line_terminator c) rest)"

text \<open>
  A greedy \<^verbatim>\<open>\d+\<close> takes the longest run of digits.  Giving a digit back never helps
  the first two groups, which a literal dot must follow, nor the third where a separator
  or the end must follow, so the backtracking matcher succeeds exactly when this one
  does, with the same three groups (lemma \<open>match_triple_Some_iff\<close> states the match
  without an algorithm).  \<open>tail\<close> is the pattern's part after the third group.
\<close>

definition match_triple ::
  "(jsstring \<Rightarrow> bool) \<Rightarrow> jsstring \<Rightarrow> (jsstring \<times> jsstring \<times> jsstring) option" where
  "match_triple tail v =
     (let a = takeWhile is_digit v; r1 = dropWhile is_digit v in
      if a = [] then None else
      case r1 of [] \<Rightarrow> None
      | d1 # r2 \<Rightarrow>
        if d1 \<noteq> dot then None else
        let b = takeWhile is_digit r2; r3 = dropWhile is_digit r2 in
        if b = [] then None else
        case r3 of [] \<Rightarrow> None
        | d2 # r4 \<Rightarrow>
          if d2 \<noteq> dot then None else
          let c = takeWhile is_digit r4; r5 = dropWhile is_digit r4 in
          if c = [] then None else
          if tail r5 then Some (a, b, c) else None)"

text \<open>
  \<^verbatim>\<open>String(v).match(/^(\d+)\.(\d+)\.(\d+)(?:[.-].*)?$/)\<close> followed by \<^verbatim>\<open>m.slice(1)\<close>: the
  three captured groups, or \<open>None\<close> for \<^verbatim>\<open>null\<close>.
\<close>

definition match_semver :: "jsstring \<Rightarrow> (jsstring \<times> jsstring \<times> jsstring) option" where
  "match_semver v = match_triple suffix_ok v"

text \<open>
  \<^verbatim>\<open>/^\d+\.\d+\.\d+$/\<close>, the format that the script's last test demands of \<open>nextVersion\<close>.
\<close>

definition version_format :: "jsstring \<Rightarrow> bool" where
  "version_format s = (match_triple (\<lambda>r. r = []) s \<noteq> None)"

text \<open>
  A string that starts with a numeric triple, whatever follows: \<^verbatim>\<open>/^\d+\.\d+\.\d+/\<close>.
\<close>

definition leading_triple :: "jsstring \<Rightarrow> bool" where
  "leading_triple s = (match_triple (\<lambda>r. True) s \<noteq> None)"

section \<open>JavaScript numbers\<close>

text \<open>
  \<^verbatim>\<open>parseInt\<close> returns a Number, an IEEE 754 double.  The numbers \<open>bumpSemver\<close> can ever hold
  are \<open>0\<close>, the value of a run of digits, and such a value plus one: non-negative integers
  that a double represents, and \<open>+\<infinity>\<close> for a run of digits beyond the range.
\<close>

datatype jsnum = Fin nat | Infinity

fun bit_length :: "nat \<Rightarrow> nat" where
  "bit_length n = (if n = 0 then 0 else Suc (bit_length (n div 2)))"

declare bit_length.simps [simp del]

text \<open>
  The double nearest to a natural number, ties to the even significand (53 bits), and
  \<open>+\<infinity>\<close> from \<open>2 ^ 1024\<close> on.
\<close>

definition round_double :: "nat \<Rightarrow> jsnum" where
  "round_double n =
     (if n < 2 ^ 53 then Fin n else
      let e = bit_length n - 53;
          q = n div 2 ^ e;
          r = n mod 2 ^ e;
          h = 2 ^ (e - 1);
          m = (if r > h \<or> (r = h \<and> odd q) then q + 1 else q)
      in if m * 2 ^ e \<ge> 2 ^ 1024 then Infinity else Fin (m * 2 ^ e))"

text \<open>The value of a digit; \<open>parseInt\<close> below is only ever given the digits of a group.\<close>

definition digit_value :: "code_unit \<Rightarrow> nat" where
  "digit_value c = unat c - 48"

text \<open>The mathematical integer that a run of decimal digits denotes.\<close>

definition mathInt :: "jsstring \<Rightarrow> nat" where
  "mathInt ds = foldl (\<lambda>acc c. 10 * acc + digit_value c) 0 ds"

text \<open>
  \<^verbatim>\<open>parseInt(n, 10)\<close> on a non-empty run of digits: no white space, sign or prefix to strip,
  no character to stop at.  Beyond 20 significant digits the language lets an
  implementation approximate; the exact value is taken here, as V8 does.
\<close>

definition parseInt :: "jsstring \<Rightarrow> jsnum" where
  "parseInt ds = round_double (mathInt ds)"

text \<open>\<^verbatim>\<open>x += 1\<close>: the exact sum, rounded.\<close>

fun add1 :: "jsnum \<Rightarrow> jsnum" where
  "add1 (Fin n) = round_double (n + 1)"
| "add1 Infinity = Infinity"

subsection \<open>Number to string\<close>

definition digit_char :: "nat \<Rightarrow> code_unit" where
  "digit_char d = word_of_nat (48 + d)"

fun decimal :: "nat \<Rightarrow> jsstring" where
  "decimal n = (if n < 10 then [digit_char n] else decimal (n div 10) @ [digit_char (n mod 10)])"

declare decimal.simps [simp del]

text \<open>
  \<^verbatim>\<open>Number::toString\<close> prints the decimal with the fewest significant digits that still
  rounds to the number, the closest to it among those.  A candidate with at least \<open>j\<close>
  trailing zeros is a multiple of \<open>10 ^ j\<close>, and if any multiple rounds to \<open>x\<close> then so does
  the nearest one below or above \<open>x\<close>.  \<open>pick j x\<close> is the closer of the two that round to
  \<open>x\<close>, the lower one should both be as close; \<open>shortest_from\<close> takes the largest \<open>j\<close> that has
  one.
\<close>

definition rounds_to :: "nat \<Rightarrow> nat \<Rightarrow> bool" where
  "rounds_to x y = (0 < y \<and> round_double y = Fin x)"

definition pick :: "nat \<Rightarrow> nat \<Rightarrow> nat option" where
  "pick j x =
     (let lo = (x div 10 ^ j) * 10 ^ j; hi = lo + 10 ^ j in
      if rounds_to x lo \<and> rounds_to x hi then Some (if x - lo \<le> hi - x then lo else hi)
      else if rounds_to x lo then Some lo
      else if rounds_to x hi then Some hi
      else None)"

fun shortest_from :: "nat \<Rightarrow> nat \<Rightarrow> nat" where
  "shortest_from 0 x = x"
| "shortest_from (Suc j) x =
     (case pick (Suc j) x of Some y \<Rightarrow> y | None \<Rightarrow> shortest_from j x)"

fun strip_zeros :: "nat \<Rightarrow> nat" where
  "strip_zeros n = (if n = 0 \<or> n mod 10 \<noteq> 0 then n else strip_zeros (n div 10))"

declare strip_zeros.simps [simp del]

text \<open>
  With \<open>n\<close> the number of digits of the chosen decimal \<open>y\<close> and \<open>s\<close> its significant digits:
  all of \<open>y\<close> when \<open>n \<le> 21\<close>, the exponent form otherwise.
\<close>

definition to_string :: "jsnum \<Rightarrow> jsstring" where
  "to_string x =
     (case x of
        Infinity \<Rightarrow> js ''Infinity''
      | Fin v \<Rightarrow>
          if v = 0 then js ''0'' else
          let y = shortest_from (length (decimal v)) v;
              n = length (decimal y);
              s = decimal (strip_zeros y)
          in if n \<le> 21 then decimal y
             else if length s = 1 then s @ js ''e+'' @ decimal (n - 1)
             else hd s # dot # tl s @ js ''e+'' @ decimal (n - 1))"

section \<open>The functions of the script\<close>

datatype BumpPart = Major | Minor | Patch

text \<open>
  \<^verbatim>\<open>part: BumpPart = 'minor'\<close>: an omitted argument is \<open>None\<close> and takes the default.
\<close>

definition default_part :: "BumpPart option \<Rightarrow> BumpPart" where
  "default_part p = (case p of None \<Rightarrow> Minor | Some x \<Rightarrow> x)"

definition bumpSemver :: "jsstring \<Rightarrow> BumpPart option \<Rightarrow> jsstring" where
  "bumpSemver v part_arg =
     (let part = default_part part_arg in
      case match_semver v of
        None \<Rightarrow> js ''1.0.0''
      | Some (a, b, c) \<Rightarrow>
          let major = parseInt a; minor = parseInt b; patch = parseInt c;
              (major, minor, patch) =
                (if part = Major then (add1 major, Fin 0, Fin 0)
                 else if part = Patch then (major, minor, add1 patch)
                 else (major, add1 minor, Fin 0))
          in to_string major @ [dot] @ to_string minor @ [dot] @ to_string patch)"

record template =
  id_t :: jsstring

record RegistryFile =
  version :: jsstring
  templates :: "template list"

record calculation =
  baseVersion :: jsstring
  nextVersion :: jsstring
  newIds :: "jsstring list"

text \<open>
  \<^verbatim>\<open>liveRegistry?.templates || []\<close>: an array is never falsy, so the fallback is taken for
  \<^verbatim>\<open>null\<close> only.  \<^verbatim>\<open>liveRegistry?.version || '1.0.0'\<close>: the empty string is falsy too.
\<close>

definition calculateNextVersion ::
  "RegistryFile option \<Rightarrow> jsstring list \<Rightarrow> BumpPart option \<Rightarrow> calculation" where
  "calculateNextVersion liveRegistry localTemplateIds bumpPart_arg =
     (let bumpPart = default_part bumpPart_arg;
          prevIds = set (map id_t (case liveRegistry of None \<Rightarrow> [] | Some r \<Rightarrow> templates r));
          newIds = filter (\<lambda>i. i \<notin> prevIds) localTemplateIds;
          baseVersion =
            (case liveRegistry of None \<Rightarrow> js ''1.0.0''
             | Some r \<Rightarrow> if version r = [] then js ''1.0.0'' else version r);
          nextVersion =
            (if length newIds > 0 then bumpSemver baseVersion (Some bumpPart) else baseVersion)
      in \<lparr>baseVersion = baseVersion, nextVersion = nextVersion, newIds = newIds\<rparr>)"

section \<open>Notions of the specification\<close>

text \<open>The known set: empty without a previous registry, the ids of its templates otherwise.\<close>

definition known_ids :: "RegistryFile option \<Rightarrow> jsstring set" where
  "known_ids previous = (case previous of None \<Rightarrow> {} | Some r \<Rightarrow> set (map id_t (templates r)))"

text \<open>
  \<open>removed_known K xs ys\<close>: the list \<open>ys\<close> is \<open>xs\<close> with some entries removed, every one of
  them an identifier of \<open>K\<close>.
\<close>

fun removed_known :: "jsstring set \<Rightarrow> jsstring list \<Rightarrow> jsstring list \<Rightarrow> bool" where
  "removed_known K [] ys = (ys = [])"
| "removed_known K (x # xs) [] = (x \<in> K \<and> removed_known K xs [])"
| "removed_known K (x # xs) (y # ys) =
     ((x = y \<and> removed_known K xs ys) \<or> (x \<in> K \<and> removed_known K xs (y # ys)))"

section \<open>Registries of the script's tests\<close>

definition live_2_0_0 :: RegistryFile where
  "live_2_0_0 = \<lparr>version = js ''2.0.0'', templates = [\<lparr>id_t = js ''homepage''\<rparr>]\<rparr>"

definition live_1_3_0 :: RegistryFile where
  "live_1_3_0 =
     \<lparr>version = js ''1.3.0'',
      templates = [\<lparr>id_t = js ''homepage''\<rparr>, \<lparr>id_t = js ''old-template''\<rparr>]\<rparr>"

definition live_1_5_0 :: RegistryFile where
  "live_1_5_0 =
     \<lparr>version = js ''1.5.0'',
      templates = [\<lparr>id_t = js ''homepage''\<rparr>, \<lparr>id_t = js ''jellyfin-server''\<rparr>]\<rparr>"

section \<open>The matcher\<close>

lemma dot_not_digit: "\<not> is_digit dot"
  by (simp add: is_digit_def dot_def)

lemma hyphen_not_digit: "\<not> is_digit hyphen"
  by (simp add: is_digit_def hyphen_def)

lemma suffix_ok_stops: "suffix_ok suf \<Longrightarrow> suf = [] \<or> \<not> is_digit (hd suf)"
  by (cases suf) (auto simp: dot_not_digit hyphen_not_digit)

lemma span_digits:
  assumes "list_all is_digit a" and "r = [] \<or> \<not> is_digit (hd r)"
  shows "takeWhile is_digit (a @ r) = a" and "dropWhile is_digit (a @ r) = r"
proof -
  have base: "takeWhile is_digit r = []" "dropWhile is_digit r = r"
    using assms(2) by (cases r; simp)+
  show "takeWhile is_digit (a @ r) = a" "dropWhile is_digit (a @ r) = r"
    using assms(1) by (induction a) (simp_all add: base)
qed

lemma match_triple_intro:
  assumes "a \<noteq> []" "list_all is_digit a" "b \<noteq> []" "list_all is_digit b"
    "c \<noteq> []" "list_all is_digit c" "suf = [] \<or> \<not> is_digit (hd suf)" "tail suf"
  shows "match_triple tail (a @ dot # b @ dot # c @ suf) = Some (a, b, c)"
proof -
  have 1: "takeWhile is_digit (a @ dot # b @ dot # c @ suf) = a"
    "dropWhile is_digit (a @ dot # b @ dot # c @ suf) = dot # b @ dot # c @ suf"
    using assms(2) by (simp_all add: span_digits dot_not_digit)
  have 2: "takeWhile is_digit (b @ dot # c @ suf) = b"
    "dropWhile is_digit (b @ dot # c @ suf) = dot # c @ suf"
    using assms(4) by (simp_all add: span_digits dot_not_digit)
  have 3: "takeWhile is_digit (c @ suf) = c" "dropWhile is_digit (c @ suf) = suf"
    using assms(6,7) by (simp_all add: span_digits)
  show ?thesis
    using assms(1,3,5,8) by (simp add: match_triple_def 1 2 3)
qed

lemma match_triple_Some_iff:
  "match_triple tail v = Some (a, b, c) \<longleftrightarrow>
     (\<exists>suf. v = a @ dot # b @ dot # c @ suf
        \<and> a \<noteq> [] \<and> list_all is_digit a
        \<and> b \<noteq> [] \<and> list_all is_digit b
        \<and> c \<noteq> [] \<and> list_all is_digit c
        \<and> (suf = [] \<or> \<not> is_digit (hd suf)) \<and> tail suf)"
proof
  assume m: "match_triple tail v = Some (a, b, c)"
  define r1 where "r1 = dropWhile is_digit v"
  have a: "a = takeWhile is_digit v" "a \<noteq> []"
    using m by (auto simp: match_triple_def Let_def split: if_splits list.splits)
  obtain r2 where r1: "r1 = dot # r2"
    using m unfolding r1_def by (auto simp: match_triple_def Let_def split: if_splits list.splits)
  have b: "b = takeWhile is_digit r2" "b \<noteq> []"
    using m r1 unfolding r1_def
    by (auto simp: match_triple_def Let_def split: if_splits list.splits)
  obtain r4 where r3: "dropWhile is_digit r2 = dot # r4"
    using m r1 unfolding r1_def
    by (auto simp: match_triple_def Let_def split: if_splits list.splits)
  have c: "c = takeWhile is_digit r4" "c \<noteq> []" "tail (dropWhile is_digit r4)"
    using m r1 r3 unfolding r1_def
    by (auto simp: match_triple_def Let_def split: if_splits list.splits)
  have "v = a @ r1" by (simp add: a r1_def)
  moreover have "r2 = b @ dot # r4" using r3 by (simp add: b flip: r3)
  moreover have "r4 = c @ dropWhile is_digit r4" by (simp add: c)
  ultimately have v: "v = a @ dot # b @ dot # c @ dropWhile is_digit r4"
    using r1 by simp
  have digs: "list_all is_digit a" "list_all is_digit b" "list_all is_digit c"
    by (auto simp: a b c list_all_iff dest: set_takeWhileD)
  have stop: "dropWhile is_digit r4 = [] \<or> \<not> is_digit (hd (dropWhile is_digit r4))"
    using hd_dropWhile [of is_digit r4] by blast
  show "\<exists>suf. v = a @ dot # b @ dot # c @ suf
        \<and> a \<noteq> [] \<and> list_all is_digit a
        \<and> b \<noteq> [] \<and> list_all is_digit b
        \<and> c \<noteq> [] \<and> list_all is_digit c
        \<and> (suf = [] \<or> \<not> is_digit (hd suf)) \<and> tail suf"
    using v a(2) b(2) c(2,3) digs stop by blast
next
  assume "\<exists>suf. v = a @ dot # b @ dot # c @ suf
        \<and> a \<noteq> [] \<and> list_all is_digit a
        \<and> b \<noteq> [] \<and> list_all is_digit b
        \<and> c \<noteq> [] \<and> list_all is_digit c
        \<and> (suf = [] \<or> \<not> is_digit (hd suf)) \<and> tail suf"
  then show "match_triple tail v = Some (a, b, c)"
    using match_triple_intro by blast
qed

lemma match_triple_mono:
  assumes "\<And>r. tail r \<Longrightarrow> tail' r" and "match_triple tail v = Some t"
  shows "match_triple tail' v = Some t"
proof -
  obtain a b c where t: "t = (a, b, c)" by (cases t)
  show ?thesis
    using assms match_triple_Some_iff [of tail v a b c] match_triple_Some_iff [of tail' v a b c]
    unfolding t by blast
qed

lemma no_leading_triple_no_match: "\<not> leading_triple v \<Longrightarrow> match_semver v = None"
  unfolding leading_triple_def match_semver_def
  using match_triple_mono [of suffix_ok "\<lambda>r. True" v] by (cases "match_triple suffix_ok v") auto

lemma bumpSemver_no_match: "match_semver v = None \<Longrightarrow> bumpSemver v part = js ''1.0.0''"
  by (simp add: bumpSemver_def)

section \<open>Numbers below \<open>2 ^ 53\<close> are exact\<close>

lemmas bit_length_numeral [simp] =
  bit_length.simps [of 0] bit_length.simps [of 1] bit_length.simps [of "Suc 0"]
  bit_length.simps [of "numeral k"] for k

lemmas decimal_numeral [simp] =
  decimal.simps [of 0] decimal.simps [of 1] decimal.simps [of "Suc 0"]
  decimal.simps [of "numeral k"] for k

lemmas strip_zeros_numeral [simp] =
  strip_zeros.simps [of 0] strip_zeros.simps [of 1] strip_zeros.simps [of "Suc 0"]
  strip_zeros.simps [of "numeral k"] for k

lemma bit_length_bounds: "0 < n \<Longrightarrow> 2 ^ (bit_length n - 1) \<le> n \<and> n < 2 ^ bit_length n"
proof (induction n rule: bit_length.induct)
  case (1 n)
  show ?case
  proof (cases "n div 2 = 0")
    case True
    with 1(2) have "n = 1" by (simp add: div_eq_0_iff) 
    then show ?thesis by (simp add: bit_length.simps [of "Suc 0"] bit_length.simps [of 0])
  next
    case False
    with 1 have ih: "2 ^ (bit_length (n div 2) - 1) \<le> n div 2" "n div 2 < 2 ^ bit_length (n div 2)"
      by auto
    have pos: "0 < bit_length (n div 2)" using False by (simp add: bit_length.simps [of "n div 2"])
    have bl: "bit_length n = Suc (bit_length (n div 2))"
      using 1(2) by (simp add: bit_length.simps [of n])
    have "(2::nat) ^ (bit_length n - 1) = 2 * 2 ^ (bit_length (n div 2) - 1)"
      using pos by (cases "bit_length (n div 2)") (simp_all add: bl)
    then have lo: "2 ^ (bit_length n - 1) \<le> n" using ih(1) by linarith
    have hi: "n < 2 ^ bit_length n" using ih(2) by (simp add: bl)
    show ?thesis using lo hi by simp
  qed
qed

lemma round_double_small: "n < 2 ^ 53 \<Longrightarrow> round_double n = Fin n"
  by (simp add: round_double_def)

lemma round_double_large:
  assumes "2 ^ 53 \<le> y" and "round_double y = Fin x"
  shows "2 ^ 53 \<le> x"
proof -
  define e where "e = bit_length y - 53"
  define q where "q = y div 2 ^ e"
  define m where "m = (if y mod 2 ^ e > 2 ^ (e - 1) \<or> (y mod 2 ^ e = 2 ^ (e - 1) \<and> odd q) then q + 1 else q)"
  have ypos: "0 < y" using assms(1) by (simp add: less_le_trans [of 0 "2 ^ 53" y])
  have bnd: "2 ^ (bit_length y - 1) \<le> y" "y < 2 ^ bit_length y"
    using bit_length_bounds [OF ypos] by simp_all
  have bl: "53 < bit_length y"
  proof (rule ccontr)
    assume "\<not> 53 < bit_length y"
    then have "(2::nat) ^ bit_length y \<le> 2 ^ 53" by (intro power_increasing) simp_all
    then show False using assms(1) bnd(2) by linarith
  qed
  then have e: "bit_length y - 1 = e + 52" "1 \<le> e" by (simp_all add: e_def)
  have "2 ^ (e + 52) \<le> y" using bnd(1) unfolding e(1) .
  then have "2 ^ 52 * 2 ^ e \<le> y" by (simp only: power_add mult.commute)
  then have "2 ^ 52 \<le> q" unfolding q_def by (simp add: less_eq_div_iff_mult_less_eq)
  moreover have "q \<le> m" by (simp add: m_def)
  ultimately have "2 ^ 52 \<le> m" by linarith
  moreover have "(2::nat) ^ 1 \<le> 2 ^ e" using e(2) by (intro power_increasing) simp_all
  ultimately have "2 ^ 52 * 2 ^ 1 \<le> m * 2 ^ e" by (intro mult_le_mono)
  then have big: "2 ^ 53 \<le> m * 2 ^ e" by simp
  have "x = m * 2 ^ e"
    using assms unfolding round_double_def Let_def e_def [symmetric] q_def [symmetric] m_def [symmetric]
    by (simp split: if_splits)
  then show ?thesis using big by simp
qed

lemma rounds_to_small:
  assumes "0 < x" "x < 2 ^ 53"
  shows "rounds_to x y \<longleftrightarrow> y = x"
proof (cases "y < 2 ^ 53")
  case True
  then show ?thesis using assms(1) by (auto simp: rounds_to_def round_double_small)
next
  case False
  then have "round_double y \<noteq> Fin x"
    using round_double_large [of y x] assms(2) by auto
  then show ?thesis using False assms(2) by (auto simp: rounds_to_def)
qed

lemma pick_small:
  assumes "0 < x" "x < 2 ^ 53"
  shows "pick j x = (if 10 ^ j dvd x then Some x else None)"
proof -
  have hi: "(x div 10 ^ j) * 10 ^ j + 10 ^ j \<noteq> x"
  proof -
    have "x mod 10 ^ j < 10 ^ j" by simp
    moreover have "x = (x div 10 ^ j) * 10 ^ j + x mod 10 ^ j"
      by (rule div_mult_mod_eq [symmetric])
    ultimately show ?thesis by linarith
  qed
  have lo: "(x div 10 ^ j) * 10 ^ j = x \<longleftrightarrow> 10 ^ j dvd x"
  proof
    assume "(x div 10 ^ j) * 10 ^ j = x"
    then show "10 ^ j dvd x" by (metis dvd_triv_right)
  next
    assume "10 ^ j dvd x"
    then show "(x div 10 ^ j) * 10 ^ j = x" by simp
  qed
  show ?thesis
    unfolding pick_def Let_def rounds_to_small [OF assms] using hi lo by auto
qed

lemma shortest_from_small: "0 < x \<Longrightarrow> x < 2 ^ 53 \<Longrightarrow> shortest_from j x = x"
  by (induction j) (simp_all add: pick_small)

lemma length_decimal_le: "0 < k \<Longrightarrow> n < 10 ^ k \<Longrightarrow> length (decimal n) \<le> k"
proof (induction k arbitrary: n)
  case 0
  then show ?case by simp
next
  case (Suc k)
  show ?case
  proof (cases "n < 10")
    case True
    then show ?thesis by (simp add: decimal.simps [of n])
  next
    case False
    then have k: "0 < k" using Suc.prems(2) by (cases k) simp_all
    have "n div 10 < 10 ^ k" using Suc.prems(2) by (simp add: less_mult_imp_div_less mult.commute)
    then have "length (decimal (n div 10)) \<le> k" using Suc.IH k by blast
    then show ?thesis using False by (simp add: decimal.simps [of n])
  qed
qed

lemma to_string_small:
  assumes "x < 2 ^ 53"
  shows "to_string (Fin x) = decimal x"
proof (cases "x = 0")
  case True
  then show ?thesis by (simp add: to_string_def js_def digit_char_def)
next
  case False
  have "x < 10 ^ 16" using assms by simp
  then have "length (decimal x) \<le> 16" by (intro length_decimal_le) simp_all
  then show ?thesis
    using False assms by (simp add: to_string_def shortest_from_small Let_def)
qed

lemma round_double_2_53: "round_double 9007199254740992 = Fin 9007199254740992"
  by (simp add: round_double_def Let_def)

lemma to_string_2_53: "to_string (Fin 9007199254740992) = decimal 9007199254740992"
  by (simp add: round_double_def rounds_to_def pick_def Let_def to_string_def)

lemma to_string_add1:
  assumes "n < 2 ^ 53"
  shows "to_string (add1 (Fin n)) = decimal (n + 1)"
proof (cases "n + 1 < 2 ^ 53")
  case True
  then show ?thesis by (simp add: round_double_small to_string_small)
next
  case False
  then have "n + 1 = 9007199254740992" using assms by simp
  then show ?thesis by (simp add: round_double_2_53 to_string_2_53)
qed

lemma parseInt_small: "mathInt ds < 2 ^ 53 \<Longrightarrow> parseInt ds = Fin (mathInt ds)"
  by (simp add: parseInt_def round_double_small)

section \<open>Printed numbers and the result of a bump\<close>

lemma unat_digit_char: "d < 10 \<Longrightarrow> unat (digit_char d) = 48 + d"
  unfolding digit_char_def by (rule of_nat_inverse [OF refl]) simp

lemma is_digit_digit_char: "d < 10 \<Longrightarrow> is_digit (digit_char d)"
  by (simp add: is_digit_def word_le_nat_alt unat_digit_char)

lemma digit_value_digit_char: "d < 10 \<Longrightarrow> digit_value (digit_char d) = d"
  by (simp add: digit_value_def unat_digit_char)

lemma mathInt_snoc: "mathInt (ds @ [c]) = 10 * mathInt ds + digit_value c"
  by (simp add: mathInt_def)

lemma mathInt_decimal: "mathInt (decimal n) = n"
proof (induction n rule: decimal.induct)
  case (1 n)
  show ?case
  proof (cases "n < 10")
    case True
    then show ?thesis by (simp add: decimal.simps [of n] mathInt_def digit_value_digit_char)
  next
    case False
    then have "mathInt (decimal (n div 10)) = n div 10" using 1 by simp
    then show ?thesis
      using False by (simp add: decimal.simps [of n] mathInt_snoc digit_value_digit_char)
  qed
qed

lemma decimal_digits: "decimal n \<noteq> [] \<and> list_all is_digit (decimal n)"
proof (induction n rule: decimal.induct)
  case (1 n)
  show ?case
  proof (cases "n < 10")
    case True
    then show ?thesis by (simp add: decimal.simps [of n] is_digit_digit_char)
  next
    case False
    then show ?thesis using 1 by (simp add: decimal.simps [of n] is_digit_digit_char)
  qed
qed

lemma version_format_decimal:
  "version_format (decimal x @ dot # decimal y @ dot # decimal z)"
  using match_triple_intro [of "decimal x" "decimal y" "decimal z" "[]" "\<lambda>r. r = []"]
  by (simp add: version_format_def decimal_digits)

lemma js_Nil [simp]: "js [] = []"
  by (simp add: js_def)

lemma default_part_simps [simp]:
  "default_part None = Minor" "default_part (Some x) = x"
  by (simp_all add: default_part_def)

lemma bumpSemver_default: "bumpSemver v (Some (default_part c)) = bumpSemver v c"
  by (simp add: bumpSemver_def)

lemma bumpSemver_match:
  assumes "match_semver v = Some (a, b, c)"
    and "mathInt a < 2 ^ 53" "mathInt b < 2 ^ 53" "mathInt c < 2 ^ 53"
  shows "bumpSemver v part =
     (case default_part part of
        Major \<Rightarrow> decimal (mathInt a + 1) @ dot # decimal 0 @ dot # decimal 0
      | Minor \<Rightarrow> decimal (mathInt a) @ dot # decimal (mathInt b + 1) @ dot # decimal 0
      | Patch \<Rightarrow> decimal (mathInt a) @ dot # decimal (mathInt b) @ dot # decimal (mathInt c + 1))"
proof -
  have z: "to_string (Fin 0) = decimal 0" by (rule to_string_small) simp
  show ?thesis
    using assms
    by (cases "default_part part")
      (simp_all add: bumpSemver_def parseInt_small to_string_add1 to_string_small z
        del: add1.simps decimal_numeral)
qed


lemmas eval_string = js_def dot_def hyphen_def digit_char_def

lemmas eval_match =
  is_digit_def is_line_terminator_def match_triple_def match_semver_def version_format_def
  leading_triple_def Let_def

lemmas eval_number =
  mathInt_def digit_value_def parseInt_def round_double_def rounds_to_def pick_def to_string_def

section \<open>Facts about \<open>calculateNextVersion\<close>\<close>

lemma calc_newIds:
  "newIds (calculateNextVersion p l c) = filter (\<lambda>i. i \<notin> known_ids p) l"
  by (cases p) (simp_all add: calculateNextVersion_def known_ids_def Let_def)

lemma calc_baseVersion:
  "baseVersion (calculateNextVersion p l c) =
     (case p of None \<Rightarrow> js ''1.0.0''
      | Some r \<Rightarrow> if version r = [] then js ''1.0.0'' else version r)"
  by (simp add: calculateNextVersion_def Let_def)

lemma calc_nextVersion:
  "nextVersion (calculateNextVersion p l c) =
     (if filter (\<lambda>i. i \<notin> known_ids p) l = [] then baseVersion (calculateNextVersion p l c)
      else bumpSemver (baseVersion (calculateNextVersion p l c)) c)"
  by (cases p) (simp_all add: calculateNextVersion_def known_ids_def Let_def bumpSemver_default)

lemma removed_known_filter:
  "removed_known K xs ys \<Longrightarrow> filter (\<lambda>i. i \<notin> K) xs = filter (\<lambda>i. i \<notin> K) ys"
  by (induction K xs ys rule: removed_known.induct) auto

lemma count_list_filter_known:
  "count_list (filter (\<lambda>i. i \<notin> K) l) x = (if x \<in> K then 0 else count_list l x)"
  by (induction l) auto

lemma filter_known_Nil: "set l \<subseteq> K \<Longrightarrow> filter (\<lambda>i. i \<notin> K) l = []"
  by (induction l) auto

lemma bumpSemver_initial:
  "bumpSemver (js ''1.0.0'') None = js ''1.1.0''"
  "bumpSemver (js ''1.0.0'') (Some Minor) = js ''1.1.0''"
  "bumpSemver (js ''1.0.0'') (Some Major) = js ''2.0.0''"
  "bumpSemver (js ''1.0.0'') (Some Patch) = js ''1.0.1''"
  by (simp_all add: bumpSemver_def eval_string eval_match eval_number del: One_nat_def)

section \<open>The version bumper\<close>

text \<open>
  Claim C1, as the code has it.  Let the input be \<open>a.b.c\<close> followed by \<open>suf\<close>, where \<open>a\<close>,
  \<open>b\<close> and \<open>c\<close> are non-empty runs of digits whose values are below \<open>2 ^ 53\<close> (at most
  \<^verbatim>\<open>Number.MAX_SAFE_INTEGER\<close>) and \<open>suf\<close> is empty or starts with \<open>.\<close> or \<open>-\<close> and has no line
  terminator after that.  Then \<open>major\<close> gives \<open>(a+1).0.0\<close>, \<open>minor\<close> and the omitted
  category give \<open>a.(b+1).0\<close>, \<open>patch\<close> gives \<open>a.b.(c+1)\<close>, each number printed in
  decimal without leading zeros, and the result always has the bare format
  \<^verbatim>\<open>/^\d+\.\d+\.\d+$/\<close>: the suffix is dropped.
\<close>

theorem bumpSemver_safe_triple:
  assumes "a \<noteq> []" "list_all is_digit a" "b \<noteq> []" "list_all is_digit b"
    and "c \<noteq> []" "list_all is_digit c"
    and "suffix_ok suf"
    and "mathInt a < 2 ^ 53" "mathInt b < 2 ^ 53" "mathInt c < 2 ^ 53"
  shows "bumpSemver (a @ dot # b @ dot # c @ suf) (Some Major)
           = decimal (mathInt a + 1) @ js ''.0.0''
       \<and> bumpSemver (a @ dot # b @ dot # c @ suf) (Some Minor)
           = decimal (mathInt a) @ dot # decimal (mathInt b + 1) @ js ''.0''
       \<and> bumpSemver (a @ dot # b @ dot # c @ suf) None
           = decimal (mathInt a) @ dot # decimal (mathInt b + 1) @ js ''.0''
       \<and> bumpSemver (a @ dot # b @ dot # c @ suf) (Some Patch)
           = decimal (mathInt a) @ dot # decimal (mathInt b) @ dot # decimal (mathInt c + 1)
       \<and> (\<forall>part. version_format (bumpSemver (a @ dot # b @ dot # c @ suf) part))"
proof -
  let ?v = "a @ dot # b @ dot # c @ suf"
  have m: "match_semver ?v = Some (a, b, c)"
    unfolding match_semver_def using assms(1-7) suffix_ok_stops [OF assms(7)]
    by (intro match_triple_intro) simp_all
  note r = bumpSemver_match [OF m assms(8-10)]
  have fmt: "version_format (bumpSemver ?v part)" for part
    by (cases "default_part part")
      (simp_all only: r [of part] BumpPart.case version_format_decimal)
  have major: "bumpSemver ?v (Some Major) = decimal (mathInt a + 1) @ js ''.0.0''"
    unfolding r [of "Some Major"] by (simp add: eval_string)
  have minor: "bumpSemver ?v (Some Minor)
      = decimal (mathInt a) @ dot # decimal (mathInt b + 1) @ js ''.0''"
    unfolding r [of "Some Minor"] by (simp add: eval_string)
  have none: "bumpSemver ?v None
      = decimal (mathInt a) @ dot # decimal (mathInt b + 1) @ js ''.0''"
    unfolding r [of None] by (simp add: eval_string)
  have patch: "bumpSemver ?v (Some Patch)
      = decimal (mathInt a) @ dot # decimal (mathInt b) @ dot # decimal (mathInt c + 1)"
    unfolding r [of "Some Patch"] by simp
  show ?thesis
    using major minor none patch fmt by blast
qed

text \<open>The theorem at \<^verbatim>\<open>1.2.3-beta.1\<close>, the pre-release case of the script's tests.\<close>

theorem bumpSemver_safe_triple_witness:
  "(js ''1'' \<noteq> [] \<and> list_all is_digit (js ''1'') \<and> js ''2'' \<noteq> [] \<and> list_all is_digit (js ''2'')
    \<and> js ''3'' \<noteq> [] \<and> list_all is_digit (js ''3'') \<and> suffix_ok (js ''-beta.1'')
    \<and> mathInt (js ''1'') < 2 ^ 53 \<and> mathInt (js ''2'') < 2 ^ 53 \<and> mathInt (js ''3'') < 2 ^ 53)
   \<and> bumpSemver (js ''1.2.3-beta.1'') (Some Major) = js ''2.0.0''
   \<and> bumpSemver (js ''1.2.3-beta.1'') (Some Minor) = js ''1.3.0''
   \<and> bumpSemver (js ''1.2.3-beta.1'') None = js ''1.3.0''
   \<and> bumpSemver (js ''1.2.3-beta.1'') (Some Patch) = js ''1.2.4''
   \<and> version_format (bumpSemver (js ''1.2.3-beta.1'') None)"
proof -
  have h: "js ''1'' \<noteq> []" "list_all is_digit (js ''1'')" "js ''2'' \<noteq> []"
    "list_all is_digit (js ''2'')" "js ''3'' \<noteq> []" "list_all is_digit (js ''3'')"
    "suffix_ok (js ''-beta.1'')"
    "mathInt (js ''1'') < 2 ^ 53" "mathInt (js ''2'') < 2 ^ 53" "mathInt (js ''3'') < 2 ^ 53"
    by (simp_all add: eval_string is_digit_def is_line_terminator_def mathInt_def digit_value_def)
  have v: "js ''1'' @ dot # js ''2'' @ dot # js ''3'' @ js ''-beta.1'' = js ''1.2.3-beta.1''"
    by (simp add: eval_string)
  have n: "mathInt (js ''1'') = 1" "mathInt (js ''2'') = 2" "mathInt (js ''3'') = 3"
    by (simp_all add: eval_string mathInt_def digit_value_def)
  show ?thesis
    using h bumpSemver_safe_triple [OF h] unfolding v n
    by (simp add: eval_string eval_match del: One_nat_def)
qed

text \<open>
  Claim C1 as stated, for every numeric triple and every suffix, fails.  At
  \<^verbatim>\<open>9007199254740992.0.0\<close> a major bump returns its input: \<open>2 ^ 53 + 1\<close> is not a double and
  the sum rounds back to \<open>2 ^ 53\<close>, where the claim says \<^verbatim>\<open>9007199254740993.0.0\<close>.  At
  \<^verbatim>\<open>1.2.3-a\nb\<close>, a triple with a \<open>-\<close>-separated suffix, the line feed stops \<^verbatim>\<open>.*\<close> short
  of the end, the pattern fails and the result is the fallback \<^verbatim>\<open>1.0.0\<close>, not \<^verbatim>\<open>1.3.0\<close>.
\<close>

theorem bumpSemver_unsafe_counterexample:
  "bumpSemver (js ''9007199254740992.0.0'') (Some Major) \<noteq> js ''9007199254740993.0.0''
   \<and> bumpSemver (js ''9007199254740992.0.0'') (Some Major) = js ''9007199254740992.0.0''
   \<and> decimal (mathInt (js ''9007199254740992'') + 1) @ js ''.0.0'' = js ''9007199254740993.0.0''
   \<and> bumpSemver (js ''1.2.3-a'' @ [0x0A] @ js ''b'') None = js ''1.0.0''"
  by (simp add: bumpSemver_def eval_string eval_match eval_number)

text \<open>
  Claim C3.  An input that the pattern does not match, and so in particular an input
  with no leading numeric triple, makes \<open>bumpSemver\<close> return the fixed string \<^verbatim>\<open>1.0.0\<close>,
  whatever the category.  The function is total: there is no failure to model.
\<close>

theorem bumpSemver_fallback:
  "(match_semver v = None \<longrightarrow> bumpSemver v part = js ''1.0.0'')
   \<and> (\<not> leading_triple v \<longrightarrow> bumpSemver v part = js ''1.0.0'')"
  using no_leading_triple_no_match [of v] by (simp add: bumpSemver_no_match)

text \<open>
  The theorem at \<^verbatim>\<open>invalid\<close> and at the empty string, the two cases of the script's tests,
  and at \<^verbatim>\<open>1.2.3abc\<close>, which starts with a triple and still is no match.
\<close>

theorem bumpSemver_fallback_witness:
  "match_semver (js ''invalid'') = None \<and> \<not> leading_triple (js ''invalid'')
   \<and> bumpSemver (js ''invalid'') (Some Minor) = js ''1.0.0''
   \<and> match_semver (js '''') = None \<and> \<not> leading_triple (js '''')
   \<and> bumpSemver (js '''') (Some Minor) = js ''1.0.0''
   \<and> match_semver (js ''1.2.3abc'') = None \<and> leading_triple (js ''1.2.3abc'')
   \<and> bumpSemver (js ''1.2.3abc'') (Some Major) = js ''1.0.0''"
proof -
  have h: "match_semver (js ''invalid'') = None" "\<not> leading_triple (js ''invalid'')"
    "match_semver (js '''') = None" "\<not> leading_triple (js '''')"
    "match_semver (js ''1.2.3abc'') = None" "leading_triple (js ''1.2.3abc'')"
    by (simp_all add: eval_string eval_match)
  show ?thesis
    using h bumpSemver_fallback [of "js ''invalid''" "Some Minor"]
      bumpSemver_fallback [of "js ''''" "Some Minor"]
      bumpSemver_fallback [of "js ''1.2.3abc''" "Some Major"]
    by simp
qed

section \<open>The registry diff\<close>

text \<open>
  Claim C2.  \<open>nextVersion\<close> is the bump of \<open>baseVersion\<close> at the category when \<open>newIds\<close> is
  not empty and \<open>baseVersion\<close> itself otherwise.  The bump is applied once whatever the
  number of new identifiers: any two local lists that both bring new identifiers give
  the same \<open>nextVersion\<close>.
\<close>

theorem nextVersion_single_bump:
  "nextVersion (calculateNextVersion p l c) =
     (if newIds (calculateNextVersion p l c) \<noteq> []
      then bumpSemver (baseVersion (calculateNextVersion p l c)) c
      else baseVersion (calculateNextVersion p l c))
   \<and> (\<forall>l'. newIds (calculateNextVersion p l c) \<noteq> []
          \<and> newIds (calculateNextVersion p l' c) \<noteq> []
        \<longrightarrow> nextVersion (calculateNextVersion p l' c) = nextVersion (calculateNextVersion p l c))"
  by (simp add: calc_nextVersion calc_newIds calc_baseVersion)

text \<open>
  The theorem on the registry \<^verbatim>\<open>2.0.0\<close> of the script's tests: one new template and three
  new templates both give \<^verbatim>\<open>2.1.0\<close>, none gives \<^verbatim>\<open>2.0.0\<close>.
\<close>

theorem nextVersion_single_bump_witness:
  "newIds (calculateNextVersion (Some live_2_0_0) [js ''homepage'', js ''new-a''] None) \<noteq> []
   \<and> newIds (calculateNextVersion (Some live_2_0_0)
        [js ''homepage'', js ''new-a'', js ''new-b'', js ''new-c''] None) \<noteq> []
   \<and> nextVersion (calculateNextVersion (Some live_2_0_0)
        [js ''homepage'', js ''new-a'', js ''new-b'', js ''new-c''] None) = js ''2.1.0''
   \<and> nextVersion (calculateNextVersion (Some live_2_0_0) [js ''homepage'', js ''new-a''] None)
       = js ''2.1.0''
   \<and> nextVersion (calculateNextVersion (Some live_2_0_0) [js ''homepage''] None) = js ''2.0.0''"
proof -
  have n: "newIds (calculateNextVersion (Some live_2_0_0) [js ''homepage'', js ''new-a''] None)
      = [js ''new-a'']"
    "newIds (calculateNextVersion (Some live_2_0_0)
        [js ''homepage'', js ''new-a'', js ''new-b'', js ''new-c''] None)
      = [js ''new-a'', js ''new-b'', js ''new-c'']"
    "newIds (calculateNextVersion (Some live_2_0_0) [js ''homepage''] None) = []"
    by (simp_all add: calc_newIds known_ids_def live_2_0_0_def js_def)
  have b: "baseVersion (calculateNextVersion (Some live_2_0_0) l None) = js ''2.0.0''" for l
    by (simp add: calc_baseVersion live_2_0_0_def js_def)
  have bump: "bumpSemver (js ''2.0.0'') None = js ''2.1.0''"
    by (simp add: bumpSemver_def eval_string eval_match eval_number del: One_nat_def)
  show ?thesis
    using nextVersion_single_bump [of "Some live_2_0_0" "[js ''homepage'', js ''new-a'']" None]
      nextVersion_single_bump [of "Some live_2_0_0" "[js ''homepage'']" None]
    by (simp add: n b bump)
qed

text \<open>
  Claim C4.  \<open>newIds\<close> is the local list filtered to the identifiers outside the known
  set (the ids of the previous templates, nothing without a previous registry).  The
  filter keeps the order of the local list, and every identifier outside the known set as
  often as the local list has it: duplicates stay.
\<close>

theorem newIds_filter:
  "newIds (calculateNextVersion p l c) = filter (\<lambda>i. i \<notin> known_ids p) l
   \<and> subseq (newIds (calculateNextVersion p l c)) l
   \<and> (\<forall>x. count_list (newIds (calculateNextVersion p l c)) x =
            (if x \<in> known_ids p then 0 else count_list l x))"
  by (simp add: calc_newIds count_list_filter_known)

text \<open>
  The theorem on a local list with a repeated new identifier and a repeated known one.
\<close>

theorem newIds_filter_witness:
  "newIds (calculateNextVersion (Some live_2_0_0)
      [js ''b'', js ''homepage'', js ''a'', js ''b'', js ''homepage''] None)
     = [js ''b'', js ''a'', js ''b'']
   \<and> newIds (calculateNextVersion None [js ''b'', js ''a'', js ''b''] None)
     = [js ''b'', js ''a'', js ''b'']"
  using newIds_filter [of "Some live_2_0_0"
      "[js ''b'', js ''homepage'', js ''a'', js ''b'', js ''homepage'']" None]
    newIds_filter [of None "[js ''b'', js ''a'', js ''b'']" None]
  by (simp add: known_ids_def live_2_0_0_def js_def)

text \<open>
  Claim C5 as stated, \<open>baseVersion\<close> is \<open>previous.version\<close> for every version string, fails
  at the empty string: \<^verbatim>\<open>||\<close> takes it for a missing value and \<open>baseVersion\<close> is \<^verbatim>\<open>1.0.0\<close>.
\<close>

theorem baseVersion_empty_counterexample:
  "baseVersion (calculateNextVersion (Some \<lparr>version = js '''', templates = []\<rparr>) [] None)
     \<noteq> version \<lparr>version = js '''', templates = []\<rparr>"
  by (simp add: calc_baseVersion js_def)

text \<open>
  Claim C5, as the code has it.  Without a previous registry \<open>baseVersion\<close> is \<^verbatim>\<open>1.0.0\<close>;
  with one whose version is not the empty string it is that version, character for
  character, well-formed or not.
\<close>

theorem baseVersion_cases:
  "(p = None \<longrightarrow> baseVersion (calculateNextVersion p l c) = js ''1.0.0'')
   \<and> (\<forall>r. p = Some r \<and> version r \<noteq> [] \<longrightarrow>
          baseVersion (calculateNextVersion p l c) = version r)"
  by (simp add: calc_baseVersion)

text \<open>
  The theorem without a registry, and with a version that a normalisation would change.
\<close>

theorem baseVersion_cases_witness:
  "baseVersion (calculateNextVersion None [js ''a''] None) = js ''1.0.0''
   \<and> version \<lparr>version = js ''v01.2-x'', templates = []\<rparr> \<noteq> []
   \<and> baseVersion (calculateNextVersion (Some \<lparr>version = js ''v01.2-x'', templates = []\<rparr>)
        [js ''a''] None) = js ''v01.2-x''"
  using baseVersion_cases [of None "[js ''a'']" None]
    baseVersion_cases [of "Some \<lparr>version = js ''v01.2-x'', templates = []\<rparr>" "[js ''a'']" None]
  by (simp add: js_def)

text \<open>
  Claim C6.  Two local lists that differ only by entries removed from the first, all of
  them known identifiers, give the same \<open>nextVersion\<close> and the same \<open>newIds\<close>.  No known
  identifier is ever in \<open>newIds\<close>.  A local list within the known set gives
  \<open>nextVersion = baseVersion\<close> and no new identifier.
\<close>

theorem removal_invariance:
  "(removed_known (known_ids p) l1 l2 \<longrightarrow>
      nextVersion (calculateNextVersion p l1 c) = nextVersion (calculateNextVersion p l2 c)
      \<and> newIds (calculateNextVersion p l1 c) = newIds (calculateNextVersion p l2 c))
   \<and> set (newIds (calculateNextVersion p l1 c)) \<inter> known_ids p = {}
   \<and> (set l1 \<subseteq> known_ids p \<longrightarrow>
        nextVersion (calculateNextVersion p l1 c) = baseVersion (calculateNextVersion p l1 c)
        \<and> newIds (calculateNextVersion p l1 c) = [])"
proof -
  have 1: "nextVersion (calculateNextVersion p l1 c) = nextVersion (calculateNextVersion p l2 c)
      \<and> newIds (calculateNextVersion p l1 c) = newIds (calculateNextVersion p l2 c)"
    if "removed_known (known_ids p) l1 l2"
    using removed_known_filter [OF that]
    by (simp add: calc_nextVersion calc_newIds calc_baseVersion)
  have 2: "set (newIds (calculateNextVersion p l1 c)) \<inter> known_ids p = {}"
    by (auto simp: calc_newIds)
  have 3: "nextVersion (calculateNextVersion p l1 c) = baseVersion (calculateNextVersion p l1 c)
      \<and> newIds (calculateNextVersion p l1 c) = []"
    if "set l1 \<subseteq> known_ids p"
    using filter_known_Nil [OF that] by (simp add: calc_nextVersion calc_newIds)
  show ?thesis using 1 2 3 by blast
qed

text \<open>
  The theorem on the removal case of the script's tests: \<^verbatim>\<open>old-template\<close> is gone from
  the local list and the version stays \<^verbatim>\<open>1.3.0\<close>.
\<close>

theorem removal_invariance_witness:
  "removed_known (known_ids (Some live_1_3_0)) [js ''homepage'', js ''old-template''] [js ''homepage'']
   \<and> set [js ''homepage''] \<subseteq> known_ids (Some live_1_3_0)
   \<and> nextVersion (calculateNextVersion (Some live_1_3_0) [js ''homepage'', js ''old-template''] None)
       = nextVersion (calculateNextVersion (Some live_1_3_0) [js ''homepage''] None)
   \<and> nextVersion (calculateNextVersion (Some live_1_3_0) [js ''homepage''] None) = js ''1.3.0''
   \<and> newIds (calculateNextVersion (Some live_1_3_0) [js ''homepage''] None) = []"
proof -
  have h: "removed_known (known_ids (Some live_1_3_0))
      [js ''homepage'', js ''old-template''] [js ''homepage'']"
    "set [js ''homepage''] \<subseteq> known_ids (Some live_1_3_0)"
    by (simp_all add: known_ids_def live_1_3_0_def js_def)
  have b: "baseVersion (calculateNextVersion (Some live_1_3_0) [js ''homepage''] None) = js ''1.3.0''"
    by (simp add: calc_baseVersion live_1_3_0_def js_def)
  have e1: "nextVersion (calculateNextVersion (Some live_1_3_0) [js ''homepage'', js ''old-template''] None)
       = nextVersion (calculateNextVersion (Some live_1_3_0) [js ''homepage''] None)"
    using h(1) removal_invariance [of "Some live_1_3_0" "[js ''homepage'', js ''old-template'']"
        "[js ''homepage'']" None]
    by blast
  have e2: "nextVersion (calculateNextVersion (Some live_1_3_0) [js ''homepage''] None)
       = baseVersion (calculateNextVersion (Some live_1_3_0) [js ''homepage''] None)"
    "newIds (calculateNextVersion (Some live_1_3_0) [js ''homepage''] None) = []"
    using h(2) removal_invariance [of "Some live_1_3_0" "[js ''homepage'']" "[js ''homepage'']" None]
    by blast+
  show ?thesis
    using h e1 e2(2) e2(1) [unfolded b] by (intro conjI)
qed

text \<open>
  Claim C7 as stated, \<open>nextVersion\<close> is \<open>snapshot.version\<close> for every snapshot, fails for
  a snapshot whose version is the empty string: \<open>nextVersion\<close> is \<^verbatim>\<open>1.0.0\<close> then.
\<close>

theorem noop_empty_version_counterexample:
  "nextVersion (calculateNextVersion (Some \<lparr>version = js '''', templates = []\<rparr>)
      (map id_t (templates \<lparr>version = js '''', templates = []\<rparr>)) None)
     \<noteq> version \<lparr>version = js '''', templates = []\<rparr>"
  by (simp add: calc_nextVersion calc_baseVersion js_def)

text \<open>
  Claim C7, as the code has it.  Against its own templates a snapshot has no new
  identifier and \<open>nextVersion\<close> is \<open>baseVersion\<close>, for every category; that is the
  snapshot's version whenever the version is not the empty string.
\<close>

theorem noop_keeps_version:
  "newIds (calculateNextVersion (Some r) (map id_t (templates r)) c) = []
   \<and> nextVersion (calculateNextVersion (Some r) (map id_t (templates r)) c)
       = baseVersion (calculateNextVersion (Some r) (map id_t (templates r)) c)
   \<and> (version r \<noteq> [] \<longrightarrow>
        nextVersion (calculateNextVersion (Some r) (map id_t (templates r)) c) = version r)"
proof -
  have "filter (\<lambda>i. i \<notin> known_ids (Some r)) (map id_t (templates r)) = []"
    by (rule filter_known_Nil) (simp add: known_ids_def)
  then show ?thesis
    by (simp add: calc_nextVersion calc_newIds calc_baseVersion)
qed

text \<open>
  The theorem on the registry \<^verbatim>\<open>1.5.0\<close> of the script's tests, with a major bump asked.
\<close>

theorem noop_keeps_version_witness:
  "version live_1_5_0 \<noteq> []
   \<and> map id_t (templates live_1_5_0) = [js ''homepage'', js ''jellyfin-server'']
   \<and> newIds (calculateNextVersion (Some live_1_5_0) [js ''homepage'', js ''jellyfin-server'']
        (Some Major)) = []
   \<and> nextVersion (calculateNextVersion (Some live_1_5_0) [js ''homepage'', js ''jellyfin-server'']
        (Some Major)) = js ''1.5.0''"
proof -
  have h: "version live_1_5_0 \<noteq> []" "version live_1_5_0 = js ''1.5.0''"
    "map id_t (templates live_1_5_0) = [js ''homepage'', js ''jellyfin-server'']"
    by (simp_all add: live_1_5_0_def js_def)
  have n: "newIds (calculateNextVersion (Some live_1_5_0) (map id_t (templates live_1_5_0))
        (Some Major)) = []"
    "nextVersion (calculateNextVersion (Some live_1_5_0) (map id_t (templates live_1_5_0))
        (Some Major)) = version live_1_5_0"
    using h(1) noop_keeps_version [of live_1_5_0 "Some Major"] by blast+
  show ?thesis
    using h(1,3) n [unfolded h(2,3)] by (intro conjI)
qed

text \<open>
  Claim C8.  Without a previous registry, two local identifiers \<open>a\<close> and \<open>b\<close> and no
  category given: \<open>baseVersion\<close> is \<^verbatim>\<open>1.0.0\<close>, \<open>nextVersion\<close> is \<^verbatim>\<open>1.1.0\<close> and \<open>newIds\<close> is
  \<open>[a, b]\<close>, whatever \<open>a\<close> and \<open>b\<close> are (equal ones too).
\<close>

theorem bootstrap_absent:
  "calculateNextVersion None [a, b] None =
     \<lparr>baseVersion = js ''1.0.0'', nextVersion = js ''1.1.0'', newIds = [a, b]\<rparr>"
  by (simp add: calculateNextVersion_def bumpSemver_initial)

text \<open>
  The theorem at the identifiers of the script's first test.
\<close>

theorem bootstrap_absent_witness:
  "calculateNextVersion None [js ''template-a'', js ''template-b''] None =
     \<lparr>baseVersion = js ''1.0.0'', nextVersion = js ''1.1.0'',
      newIds = [js ''template-a'', js ''template-b'']\<rparr>"
  using bootstrap_absent [of "js ''template-a''" "js ''template-b''"] by simp

text \<open>
  Claim C9.  A previous registry whose version is the empty string does not pass it on:
  \<open>baseVersion\<close> is \<^verbatim>\<open>1.0.0\<close>, as without a registry, and \<open>nextVersion\<close> is \<^verbatim>\<open>1.0.0\<close> or its
  bump (\<^verbatim>\<open>2.0.0\<close>, \<^verbatim>\<open>1.1.0\<close> or \<^verbatim>\<open>1.0.1\<close>), never the empty string.
\<close>

theorem empty_version_fallback:
  assumes "version r = []"
  shows "baseVersion (calculateNextVersion (Some r) l c) = js ''1.0.0''
    \<and> baseVersion (calculateNextVersion (Some r) l c) = baseVersion (calculateNextVersion None l c)
    \<and> (nextVersion (calculateNextVersion (Some r) l c) = js ''1.0.0''
        \<or> nextVersion (calculateNextVersion (Some r) l c) = bumpSemver (js ''1.0.0'') c)
    \<and> nextVersion (calculateNextVersion (Some r) l c) \<in>
         {js ''1.0.0'', js ''2.0.0'', js ''1.1.0'', js ''1.0.1''}
    \<and> nextVersion (calculateNextVersion (Some r) l c) \<noteq> []"
proof -
  have b: "baseVersion (calculateNextVersion (Some r) l c) = js ''1.0.0''"
    using assms by (simp add: calc_baseVersion)
  have n: "nextVersion (calculateNextVersion (Some r) l c) = js ''1.0.0''
        \<or> nextVersion (calculateNextVersion (Some r) l c) = bumpSemver (js ''1.0.0'') c"
    by (simp add: calc_nextVersion b)
  have v: "bumpSemver (js ''1.0.0'') c \<in> {js ''2.0.0'', js ''1.1.0'', js ''1.0.1''}"
  proof (cases c)
    case None
    then show ?thesis by (simp add: bumpSemver_initial)
  next
    case (Some x)
    then show ?thesis by (cases x) (simp_all add: bumpSemver_initial)
  qed
  have m: "nextVersion (calculateNextVersion (Some r) l c) \<in>
         {js ''1.0.0'', js ''2.0.0'', js ''1.1.0'', js ''1.0.1''}"
    using n v by auto
  have "[] \<notin> {js ''1.0.0'', js ''2.0.0'', js ''1.1.0'', js ''1.0.1''}"
    by (simp add: js_def)
  then have e: "nextVersion (calculateNextVersion (Some r) l c) \<noteq> []"
    using m by metis
  show ?thesis using b n m e by (simp add: calc_baseVersion)
qed

text \<open>
  The theorem on a registry with an empty version, one new template and a patch bump.
\<close>

theorem empty_version_fallback_witness:
  "version \<lparr>version = js '''', templates = [\<lparr>id_t = js ''homepage''\<rparr>]\<rparr> = []
   \<and> baseVersion (calculateNextVersion
        (Some \<lparr>version = js '''', templates = [\<lparr>id_t = js ''homepage''\<rparr>]\<rparr>)
        [js ''homepage'', js ''new-a''] (Some Patch)) = js ''1.0.0''
   \<and> nextVersion (calculateNextVersion
        (Some \<lparr>version = js '''', templates = [\<lparr>id_t = js ''homepage''\<rparr>]\<rparr>)
        [js ''homepage'', js ''new-a''] (Some Patch)) = js ''1.0.1''"
proof -
  have h: "version \<lparr>version = js '''', templates = [\<lparr>id_t = js ''homepage''\<rparr>]\<rparr> = []"
    by simp
  have n: "filter (\<lambda>i. i \<notin> known_ids
        (Some \<lparr>version = js '''', templates = [\<lparr>id_t = js ''homepage''\<rparr>]\<rparr>))
        [js ''homepage'', js ''new-a''] \<noteq> []"
    by (simp add: known_ids_def js_def)
  show ?thesis
    using h empty_version_fallback [OF h, of "[js ''homepage'', js ''new-a'']" "Some Patch"] n
    by (simp add: calc_nextVersion bumpSemver_initial)
qed

text \<open>
  Claim C10.  A previous registry whose version is not empty and not of the form
  \<^verbatim>\<open>/^\d+\.\d+\.\d+$/\<close>, with a local list within the known set: \<open>nextVersion\<close> is that
  version unchanged, so \<open>nextVersion\<close> need not be a well-formed version.
\<close>

theorem malformed_version_kept:
  assumes "version r \<noteq> []" and "\<not> version_format (version r)"
    and "set l \<subseteq> known_ids (Some r)"
  shows "nextVersion (calculateNextVersion (Some r) l c) = version r
    \<and> \<not> version_format (nextVersion (calculateNextVersion (Some r) l c))"
  using assms filter_known_Nil [OF assms(3)]
  by (simp add: calc_nextVersion calc_baseVersion)

text \<open>
  The theorem at the version \<^verbatim>\<open>invalid\<close>.
\<close>

theorem malformed_version_kept_witness:
  "version \<lparr>version = js ''invalid'', templates = [\<lparr>id_t = js ''homepage''\<rparr>]\<rparr> \<noteq> []
   \<and> \<not> version_format (version \<lparr>version = js ''invalid'', templates = [\<lparr>id_t = js ''homepage''\<rparr>]\<rparr>)
   \<and> set [js ''homepage''] \<subseteq>
       known_ids (Some \<lparr>version = js ''invalid'', templates = [\<lparr>id_t = js ''homepage''\<rparr>]\<rparr>)
   \<and> nextVersion (calculateNextVersion
        (Some \<lparr>version = js ''invalid'', templates = [\<lparr>id_t = js ''homepage''\<rparr>]\<rparr>)
        [js ''homepage''] None) = js ''invalid''"
proof -
  have h: "version \<lparr>version = js ''invalid'', templates = [\<lparr>id_t = js ''homepage''\<rparr>]\<rparr> \<noteq> []"
    "\<not> version_format (version \<lparr>version = js ''invalid'', templates = [\<lparr>id_t = js ''homepage''\<rparr>]\<rparr>)"
    "set [js ''homepage''] \<subseteq>
       known_ids (Some \<lparr>version = js ''invalid'', templates = [\<lparr>id_t = js ''homepage''\<rparr>]\<rparr>)"
    by (simp_all add: known_ids_def eval_string eval_match)
  show ?thesis
    using h malformed_version_kept [OF h, of None] by simp
qed

end
